theory Spec2Isabelle
  imports Complex_Main "HOL-Library.AList" "HOL-Library.Multiset"
begin

section \<open>The Elo rating store of \<^verbatim>\<open>src/elo.py\<close>\<close>

text \<open>
  The class \<^verbatim>\<open>Elo\<close> keeps a dictionary from player names to ratings, a list of the
  matches recorded so far and two configuration values. The embedding follows the class
  method by method.

  \<^item> Python dictionaries keep their keys in insertion order and \<^verbatim>\<open>print_rating\<close> sorts
    the items with a stable sort, so the dictionary is an association list in insertion
    order. \<^verbatim>\<open>d[k] = v\<close> is \<open>AList.update k v\<close>: it overwrites the value of a key that is
    present where it stands and appends a new key at the end. \<^verbatim>\<open>d[k]\<close> is \<open>map_of d k\<close>,
    with \<open>None\<close> for the \<^verbatim>\<open>KeyError\<close>.
  \<^item> Ratings, scores, the initial rating and the k-factor are real numbers: the
    arithmetic of the source is read as exact arithmetic, and \<^verbatim>\<open>10 ** x\<close> is
    \<open>10 powr x\<close>. Python computes with integers and IEEE doubles: there a result is
    rounded, an integer above \<open>2 ^ 53\<close> can change when it is converted, and
    \<^verbatim>\<open>10 ** x\<close> raises \<^verbatim>\<open>OverflowError\<close> for a rating gap of about 123300 or more.
    None of this is in the embedding, so the theorems below are about which players are
    registered, what is recorded, printed and raised on a lookup, and in which order the
    ratings are read and written. The one theorem that states computed ratings is that
    of the first match (C1), where the doubles of the code give the same first rating and
    a second rating on the same side of 1484.
  \<^item> Every \<^verbatim>\<open>print\<close> of the source is a message of type \<open>msg\<close>; a method returns the
    messages it printed next to the store it leaves behind.
  \<^item> An exception is a value of type \<open>error\<close>. A method that can raise after it has
    mutated the store returns the exception (if any) together with the store as the
    exception left it.
\<close>

subsection \<open>Data\<close>

datatype error =
    KeyError string
  | IndexError
  | ValueError string
  | FileNotFoundError string
  | UnboundLocalError

datatype msg =
    PlayerExists string
  | InvalidResult string string real
  | FromTextError error
  | Banner
  | ResultsHeader
  | Results "(string \<times> real) list"

record elo =
  players :: "(string \<times> real) list"
  initial_rating :: real
  k_factor :: real
  matches :: "(string \<times> string \<times> real) list"

text \<open>\<^verbatim>\<open>name in self.players\<close>.\<close>

definition has_player :: "elo \<Rightarrow> string \<Rightarrow> bool" where
  "has_player s name = (map_of (players s) name \<noteq> None)"

text \<open>
  \<^verbatim>\<open>__init__\<close>: the dictionary comprehension binds every name of \<open>names\<close> to the initial
  rating, from left to right; a repeated name keeps its first position.
\<close>

definition Elo :: "string list \<Rightarrow> real \<Rightarrow> real \<Rightarrow> elo" where
  "Elo names initial k =
     \<lparr>players = foldl (\<lambda>d player_name. AList.update player_name initial d) [] names,
      initial_rating = initial,
      k_factor = k,
      matches = []\<rparr>"

subsection \<open>Registration, expected score, rating update\<close>

definition add_player :: "elo \<Rightarrow> string \<Rightarrow> elo \<times> msg list" where
  "add_player s name =
     (if has_player s name then (s, [PlayerExists name])
      else (s\<lparr>players := AList.update name (initial_rating s) (players s)\<rparr>, []))"

definition expected_score :: "elo \<Rightarrow> string \<Rightarrow> string \<Rightarrow> error + real" where
  "expected_score s player1 player2 =
     (case map_of (players s) player1 of
        None \<Rightarrow> Inl (KeyError player1)
      | Some rating1 \<Rightarrow>
          (case map_of (players s) player2 of
             None \<Rightarrow> Inl (KeyError player2)
           | Some rating2 \<Rightarrow> Inr (1 / (1 + 10 powr ((rating2 - rating1) / 400)))))"

text \<open>
  \<^verbatim>\<open>_update_rating\<close> raises before it writes, so on an exception the store is the one it
  was given. As in \<open>expected_score\<close>, the arithmetic is exact.
\<close>

definition update_rating :: "elo \<Rightarrow> string \<Rightarrow> string \<Rightarrow> real \<Rightarrow> error + elo" where
  "update_rating s player1 player2 score1 =
     (case expected_score s player1 player2 of
        Inl e \<Rightarrow> Inl e
      | Inr expected1 \<Rightarrow>
          (case map_of (players s) player1 of
             None \<Rightarrow> Inl (KeyError player1)
           | Some rating1 \<Rightarrow>
               Inr (s\<lparr>players :=
                      AList.update player1 (rating1 + k_factor s * (score1 - expected1))
                        (players s)\<rparr>)))"

subsection \<open>Recording a match\<close>

text \<open>
  \<^verbatim>\<open>add_match_result\<close>: the membership test on the score, the two registrations, the
  append to the history, then the two rating updates one after the other, the second on
  the store the first has written. The result is the exception raised (if any), the store
  and the messages printed.
\<close>

definition add_match_result ::
  "elo \<Rightarrow> string \<Rightarrow> string \<Rightarrow> real \<Rightarrow> error option \<times> elo \<times> msg list" where
  "add_match_result s player1 player2 score1 =
     (if \<not> (score1 = 1 \<or> score1 = 1 / 2 \<or> score1 = 0)
      then (None, s, [InvalidResult player1 player2 score1])
      else
        let (s1, out1) = (if \<not> has_player s player1 then add_player s player1 else (s, []));
            (s2, out2) = (if \<not> has_player s1 player2 then add_player s1 player2 else (s1, []));
            s3 = s2\<lparr>matches := matches s2 @ [(player1, player2, score1)]\<rparr>
        in (case update_rating s3 player1 player2 score1 of
              Inl e \<Rightarrow> (Some e, s3, out1 @ out2)
            | Inr s4 \<Rightarrow>
                (case update_rating s4 player2 player1 (1 - score1) of
                   Inl e \<Rightarrow> (Some e, s4, out1 @ out2)
                 | Inr s5 \<Rightarrow> (None, s5, out1 @ out2))))"

subsection \<open>Reading matches from text\<close>

text \<open>
  The loop of \<^verbatim>\<open>from_txt\<close>. It sits inside one \<^verbatim>\<open>try\<close>, so the first exception ends
  it. Two builtins of Python that the loop calls are not part of the repository and are
  parameters: \<open>line_fields\<close> stands for \<^verbatim>\<open>str.strip\<close> followed by \<^verbatim>\<open>str.split\<close>, giving the
  fields of a line, and \<open>float\<close> stands for \<^verbatim>\<open>float\<close> on strings, \<open>Inl\<close> being its
  \<^verbatim>\<open>ValueError\<close>. The three arguments of the call are evaluated from left to right, and
  each index raises \<^verbatim>\<open>IndexError\<close> on a line with too few fields. An exception raised by
  \<^verbatim>\<open>add_match_result\<close> ends the loop as well, with the store as that call left it.
\<close>

fun from_txt_loop ::
  "(string \<Rightarrow> error + real) \<Rightarrow> (string \<Rightarrow> string list) \<Rightarrow> elo \<Rightarrow> string list \<Rightarrow>
   error option \<times> elo \<times> msg list" where
  "from_txt_loop float line_fields s [] = (None, s, [])"
| "from_txt_loop float line_fields s (l # ls) =
     (let match = line_fields l in
      if length match < 3 then (Some IndexError, s, [])
      else
        (case float (match ! 2) of
           Inl e \<Rightarrow> (Some e, s, [])
         | Inr score1 \<Rightarrow>
             (case add_match_result s (match ! 0) (match ! 1) score1 of
                (Some e, s', out) \<Rightarrow> (Some e, s', out)
              | (None, s', out) \<Rightarrow>
                  (case from_txt_loop float line_fields s' ls of
                     (r, s'', out') \<Rightarrow> (r, s'', out @ out')))))"

text \<open>
  \<^verbatim>\<open>from_txt\<close>: \<open>fs\<close> is the file system, giving the lines of a file that exists. When
  the file is missing the first \<^verbatim>\<open>except\<close> prints the error and the loop then fails on
  the unbound variable \<^verbatim>\<open>matches\<close>, which the second \<^verbatim>\<open>except\<close> prints.
\<close>

definition from_txt ::
  "(string \<Rightarrow> string list option) \<Rightarrow> (string \<Rightarrow> error + real) \<Rightarrow> (string \<Rightarrow> string list) \<Rightarrow>
   elo \<Rightarrow> string \<Rightarrow> elo \<times> msg list" where
  "from_txt fs float line_fields s file_path =
     (case fs file_path of
        None \<Rightarrow> (s, [FromTextError (FileNotFoundError file_path), FromTextError UnboundLocalError])
      | Some lines \<Rightarrow>
          (case from_txt_loop float line_fields s lines of
             (None, s', out) \<Rightarrow> (s', out)
           | (Some e, s', out) \<Rightarrow> (s', out @ [FromTextError e])))"

subsection \<open>Reporting\<close>

text \<open>
  \<^verbatim>\<open>print_rating\<close> copies the items of the dictionary into a list and sorts the copy by
  rating with \<^verbatim>\<open>reverse=True\<close>, which is a stable sort on the negated key. The list is
  printed between two banner lines.
\<close>

definition players_ratings :: "elo \<Rightarrow> (string \<times> real) list" where
  "players_ratings s = sort_key (\<lambda>x. - snd x) (players s)"

definition print_rating :: "elo \<Rightarrow> elo \<times> msg list" where
  "print_rating s = (s, [Banner, ResultsHeader, Results (players_ratings s), Banner])"

subsection \<open>Reachable stores\<close>

text \<open>
  One step is one call of a public method that can touch the store; a store is reachable
  when the constructor built it and only such steps changed it.
\<close>

inductive step :: "elo \<Rightarrow> elo \<Rightarrow> bool" where
  by_add_player: "step s (fst (add_player s name))"
| by_add_match_result: "step s (fst (snd (add_match_result s player1 player2 score1)))"
| by_from_txt: "step s (fst (from_txt fs float line_fields s file_path))"
| by_print_rating: "step s (fst (print_rating s))"

inductive reachable :: "elo \<Rightarrow> bool" where
  init: "reachable (Elo names initial k)"
| next_step: "reachable s \<Longrightarrow> step s s' \<Longrightarrow> reachable s'"

text \<open>Both players of every record of the history are keys of the player dictionary.\<close>

definition history_registered :: "elo \<Rightarrow> bool" where
  "history_registered s =
     list_all (\<lambda>(player1, player2, score1). has_player s player1 \<and> has_player s player2)
       (matches s)"

subsection \<open>Reading a line and recording what was read\<close>

text \<open>
  What the body of the loop of \<^verbatim>\<open>from_txt\<close> reads from one line before it calls
  \<^verbatim>\<open>add_match_result\<close>: the three arguments of the call, or the exception raised while
  they are evaluated (\<^verbatim>\<open>IndexError\<close> on fewer than three fields, or the error of
  \<^verbatim>\<open>float\<close> on the third field). A line is malformed when this is an exception.
\<close>

definition read_line ::
  "(string \<Rightarrow> error + real) \<Rightarrow> (string \<Rightarrow> string list) \<Rightarrow> string \<Rightarrow>
   error + (string \<times> string \<times> real)" where
  "read_line float line_fields l =
     (let match = line_fields l in
      if length match < 3 then Inl IndexError
      else (case float (match ! 2) of
              Inl e \<Rightarrow> Inl e
            | Inr score1 \<Rightarrow> Inr (match ! 0, match ! 1, score1)))"



subsection \<open>Instances of the two builtins for the examples\<close>










subsection \<open>Auxiliary notions for the statements\<close>

text \<open>
  The store after \<^verbatim>\<open>if name not in self.players: self.add_player(name)\<close>, the
  registration step of \<^verbatim>\<open>add_match_result\<close>.
\<close>

definition registered :: "elo \<Rightarrow> string \<Rightarrow> elo" where
  "registered s name = (if has_player s name then s else fst (add_player s name))"

section \<open>Properties\<close>

subsection \<open>The player dictionary and registration\<close>

lemma has_player_iff: "has_player s name \<longleftrightarrow> name \<in> fst ` set (players s)"
  by (simp add: has_player_def map_of_eq_None_iff)

lemma update_absent: "k \<notin> fst ` set al \<Longrightarrow> AList.update k v al = al @ [(k, v)]"
  by (induction al) auto

lemma add_player_present: "has_player s name \<Longrightarrow> add_player s name = (s, [PlayerExists name])"
  by (simp add: add_player_def)

lemma add_player_absent:
  "\<not> has_player s name \<Longrightarrow>
   add_player s name = (s\<lparr>players := players s @ [(name, initial_rating s)]\<rparr>, [])"
  by (simp add: add_player_def has_player_iff update_absent)

lemma has_player_add_player:
  "has_player (fst (add_player s name)) q \<longleftrightarrow> q = name \<or> has_player s q"
  by (auto simp: add_player_def has_player_def AList.update_conv')

lemma add_player_fields:
  "matches (fst (add_player s name)) = matches s"
  "initial_rating (fst (add_player s name)) = initial_rating s"
  "k_factor (fst (add_player s name)) = k_factor s"
  by (simp_all add: add_player_def)

lemma add_player_keeps_players: "has_player s q \<Longrightarrow> has_player (fst (add_player s name)) q"
  by (simp add: has_player_add_player)

subsection \<open>Rating update and match recording\<close>

lemma update_rating_total:
  "has_player s a \<Longrightarrow> has_player s b \<Longrightarrow>
   \<exists>s'. update_rating s a b sc = Inr s' \<and> (\<forall>q. has_player s' q = has_player s q) \<and>
        matches s' = matches s \<and> initial_rating s' = initial_rating s \<and> k_factor s' = k_factor s"
  by (auto simp: update_rating_def expected_score_def has_player_def AList.update_conv')

lemma register_step:
  "(if \<not> has_player s name then add_player s name else (s, [])) = (registered s name, [])"
  by (simp add: registered_def add_player_def)

lemma has_player_registered: "has_player (registered s name) q \<longleftrightarrow> q = name \<or> has_player s q"
  by (auto simp: registered_def has_player_add_player)

lemma registered_fields:
  "matches (registered s name) = matches s"
  "initial_rating (registered s name) = initial_rating s"
  "k_factor (registered s name) = k_factor s"
  by (simp_all add: registered_def add_player_def)

lemma add_match_result_valid:
  assumes "score1 = 1 \<or> score1 = 1 / 2 \<or> score1 = 0"
  shows "add_match_result s player1 player2 score1 =
    (let s3 = (registered (registered s player1) player2)
                \<lparr>matches := matches s @ [(player1, player2, score1)]\<rparr>
     in (case update_rating s3 player1 player2 score1 of
              Inl e \<Rightarrow> (Some e, s3, [])
            | Inr s4 \<Rightarrow>
                (case update_rating s4 player2 player1 (1 - score1) of
                   Inl e \<Rightarrow> (Some e, s4, [])
                 | Inr s5 \<Rightarrow> (None, s5, []))))"
  using assms
  by (simp add: add_match_result_def register_step registered_fields Let_def split: sum.splits)

lemma add_match_result_cases:
  "(\<not> (score1 = 1 \<or> score1 = 1 / 2 \<or> score1 = 0) \<and>
      add_match_result s player1 player2 score1 =
        (None, s, [InvalidResult player1 player2 score1])) \<or>
   ((score1 = 1 \<or> score1 = 1 / 2 \<or> score1 = 0) \<and>
      (\<exists>s'. add_match_result s player1 player2 score1 = (None, s', []) \<and>
            (\<forall>q. has_player s' q \<longleftrightarrow> q = player1 \<or> q = player2 \<or> has_player s q) \<and>
            matches s' = matches s @ [(player1, player2, score1)] \<and>
            initial_rating s' = initial_rating s \<and> k_factor s' = k_factor s))"
proof (cases "score1 = 1 \<or> score1 = 1 / 2 \<or> score1 = 0")
  case False
  then show ?thesis by (simp add: add_match_result_def)
next
  case True
  define s3 where "s3 = (registered (registered s player1) player2)
                \<lparr>matches := matches s @ [(player1, player2, score1)]\<rparr>"
  have k3: "has_player s3 q \<longleftrightarrow> q = player1 \<or> q = player2 \<or> has_player s q" for q
    using has_player_registered [of "registered s player1" player2 q]
      has_player_registered [of s player1 q]
    by (auto simp: s3_def has_player_def)
  have f3: "matches s3 = matches s @ [(player1, player2, score1)]"
    "initial_rating s3 = initial_rating s" "k_factor s3 = k_factor s"
    by (simp_all add: s3_def registered_fields)
  have h3: "has_player s3 player1" "has_player s3 player2" by (simp_all add: k3)
  obtain s4 where s4: "update_rating s3 player1 player2 score1 = Inr s4"
    and k4: "\<forall>q. has_player s4 q = has_player s3 q"
    and f4: "matches s4 = matches s3" "initial_rating s4 = initial_rating s3"
      "k_factor s4 = k_factor s3"
    using update_rating_total [OF h3] by blast
  have h4: "has_player s4 player2" "has_player s4 player1" using k4 h3 by simp_all
  obtain s5 where s5: "update_rating s4 player2 player1 (1 - score1) = Inr s5"
    and k5: "\<forall>q. has_player s5 q = has_player s4 q"
    and f5: "matches s5 = matches s4" "initial_rating s5 = initial_rating s4"
      "k_factor s5 = k_factor s4"
    using update_rating_total [OF h4] by blast
  have "add_match_result s player1 player2 score1 = (None, s5, [])"
    using True s4 s5 by (simp add: add_match_result_valid s3_def [symmetric])
  moreover have "\<forall>q. has_player s5 q \<longleftrightarrow> q = player1 \<or> q = player2 \<or> has_player s q"
    using k5 k4 k3 by simp
  moreover have "matches s5 = matches s @ [(player1, player2, score1)]"
    "initial_rating s5 = initial_rating s" "k_factor s5 = k_factor s"
    using f5 f4 f3 by simp_all
  ultimately show ?thesis using True by blast
qed

lemma add_match_result_raises_nothing: "fst (add_match_result s player1 player2 score1) = None"
  using add_match_result_cases [of score1 s player1 player2] by auto

lemma add_match_result_keeps_players:
  "has_player s q \<Longrightarrow> has_player (fst (snd (add_match_result s player1 player2 score1))) q"
  using add_match_result_cases [of score1 s player1 player2] by auto

lemma add_match_result_history:
  "\<exists>new. matches (fst (snd (add_match_result s player1 player2 score1))) = matches s @ new"
  using add_match_result_cases [of score1 s player1 player2] by auto

subsection \<open>Preservation of the history invariant\<close>

lemma add_match_result_history_registered:
  assumes "history_registered s"
  shows "history_registered (fst (snd (add_match_result s player1 player2 score1)))"
  using add_match_result_cases [of score1 s player1 player2] assms
  by (auto simp: history_registered_def list_all_iff)

lemma add_player_history_registered:
  "history_registered s \<Longrightarrow> history_registered (fst (add_player s name))"
  by (auto simp: history_registered_def list_all_iff has_player_add_player add_player_fields)

subsection \<open>The loop over the lines of a file\<close>

lemma from_txt_loop_malformed:
  "read_line float line_fields bad = Inl e \<Longrightarrow>
   from_txt_loop float line_fields s (bad # rest) = (Some e, s, [])"
  by (auto simp: read_line_def Let_def split: if_splits sum.splits)

lemma from_txt_loop_read:
  assumes "read_line float line_fields l = Inr (player1, player2, score1)"
  shows "from_txt_loop float line_fields s (l # ls) =
           (case add_match_result s player1 player2 score1 of
              (Some e, s', out) \<Rightarrow> (Some e, s', out)
            | (None, s', out) \<Rightarrow>
                (case from_txt_loop float line_fields s' ls of
                   (r, s'', out') \<Rightarrow> (r, s'', out @ out')))"
  using assms by (auto simp: read_line_def Let_def split: if_splits sum.splits)




lemma from_txt_loop_keeps:
  "(\<forall>q. has_player s q \<longrightarrow> has_player (fst (snd (from_txt_loop float line_fields s ls))) q) \<and>
   (history_registered s \<longrightarrow>
      history_registered (fst (snd (from_txt_loop float line_fields s ls)))) \<and>
   (\<exists>new. matches (fst (snd (from_txt_loop float line_fields s ls))) = matches s @ new)"
proof (induction ls arbitrary: s)
  case Nil
  then show ?case by simp
next
  case (Cons l ls)
  show ?case
  proof (cases "read_line float line_fields l")
    case (Inl e)
    then show ?thesis by (simp add: from_txt_loop_malformed del: from_txt_loop.simps)
  next
    case (Inr m)
    obtain player1 player2 score1 where m: "m = (player1, player2, score1)" by (cases m) auto
    define s1 where "s1 = fst (snd (add_match_result s player1 player2 score1))"
    obtain out where a: "add_match_result s player1 player2 score1 = (None, s1, out)"
      using add_match_result_raises_nothing [of s player1 player2 score1]
      by (cases "add_match_result s player1 player2 score1") (auto simp: s1_def)
    have eq: "fst (snd (from_txt_loop float line_fields s (l # ls))) =
              fst (snd (from_txt_loop float line_fields s1 ls))"
      using Inr a
      by (simp add: m from_txt_loop_read del: from_txt_loop.simps split: prod.splits)
    have ih: "(\<forall>q. has_player s1 q \<longrightarrow>
                  has_player (fst (snd (from_txt_loop float line_fields s1 ls))) q) \<and>
      (history_registered s1 \<longrightarrow>
         history_registered (fst (snd (from_txt_loop float line_fields s1 ls)))) \<and>
      (\<exists>new. matches (fst (snd (from_txt_loop float line_fields s1 ls))) = matches s1 @ new)"
      using Cons.IH [of s1] by simp
    have k1: "has_player s q \<Longrightarrow> has_player s1 q" for q
      unfolding s1_def by (rule add_match_result_keeps_players)
    have i1: "history_registered s \<Longrightarrow> history_registered s1"
      unfolding s1_def by (rule add_match_result_history_registered)
    obtain new1 where m1: "matches s1 = matches s @ new1"
      using add_match_result_history [of s player1 player2 score1] by (auto simp: s1_def)
    show ?thesis
      unfolding eq using ih k1 i1 m1 by auto
  qed
qed

lemma from_txt_state:
  "fst (from_txt fs float line_fields s file_path) =
     (case fs file_path of
        None \<Rightarrow> s
      | Some ls \<Rightarrow> fst (snd (from_txt_loop float line_fields s ls)))"
  by (simp add: from_txt_def split: option.splits prod.splits)

lemma step_keeps:
  assumes "step s s'"
  shows "(\<forall>q. has_player s q \<longrightarrow> has_player s' q) \<and>
         (history_registered s \<longrightarrow> history_registered s') \<and>
         (\<exists>new. matches s' = matches s @ new)"
  using assms
proof cases
  case (by_add_player name)
  then show ?thesis
    using add_player_keeps_players add_player_history_registered
    by (simp add: add_player_fields)
next
  case (by_add_match_result player1 player2 score1)
  then show ?thesis
    using add_match_result_keeps_players add_match_result_history_registered
      add_match_result_history by blast
next
  case (by_from_txt fs float line_fields file_path)
  then show ?thesis
    using from_txt_loop_keeps [of s float line_fields]
    by (simp add: from_txt_state split: option.splits)
next
  case by_print_rating
  then show ?thesis by (simp add: print_rating_def)
qed

subsection \<open>Claims\<close>

text \<open>
  C1. On a fresh store with initial rating 1500 and k-factor 32, recording a win of
  \<^verbatim>\<open>a\<close> over \<^verbatim>\<open>b\<close> leaves \<^verbatim>\<open>a\<close> at 1516, but \<^verbatim>\<open>b\<close> above 1484: the second call of
  \<^verbatim>\<open>_update_rating\<close> computes the expected score of \<^verbatim>\<open>b\<close> against the rating of
  \<^verbatim>\<open>a\<close> that the first call has already written (1516, a difference of 16 points, hence
  the exponent 16 / 400 = 1 / 25), not against the rating before the match.
\<close>

theorem first_match_second_update_reads_new_rating:
  "add_match_result (Elo [] 1500 32) ''a'' ''b'' 1 =
     (None,
      \<lparr>players = [(''a'', 1516), (''b'', 1500 - 32 / (1 + 10 powr (1 / 25)))],
       initial_rating = 1500, k_factor = 32, matches = [(''a'', ''b'', 1)]\<rparr>,
      []) \<and>
   1484 < (1500 - 32 / (1 + 10 powr (1 / 25)) :: real)"
proof -
  have one: "(1::real) < 10 powr (1 / 25)" by simp
  have "1 < t \<Longrightarrow> 32 / (1 + t) < (16::real)" for t by (simp add: field_simps)
  from this [OF one] have "32 / (1 + 10 powr (1 / 25)) < (16::real)" .
  then have gt: "1484 < (1500 - 32 / (1 + 10 powr (1 / 25)) :: real)" by simp
  have "add_match_result (Elo [] 1500 32) ''a'' ''b'' 1 =
     (None,
      \<lparr>players = [(''a'', 1516), (''b'', 1500 - 32 / (1 + 10 powr (1 / 25)))],
       initial_rating = 1500, k_factor = 32, matches = [(''a'', ''b'', 1)]\<rparr>,
      [])"
    by (simp add: Elo_def add_match_result_def has_player_def add_player_def
      update_rating_def expected_score_def)
  then show ?thesis using gt by simp
qed

text \<open>
  C2. A call of \<^verbatim>\<open>add_match_result\<close> whose score is none of 1, 0.5 and 0 changes
  nothing: it raises no exception, returns the store it was given (so the player
  dictionary, the ratings and the match history are the same, and no player was created)
  and prints the warning about the invalid result.
\<close>

theorem invalid_score_no_mutation:
  assumes "score1 \<noteq> 1" and "score1 \<noteq> 1 / 2" and "score1 \<noteq> 0"
  shows "add_match_result s player1 player2 score1 =
           (None, s, [InvalidResult player1 player2 score1])"
  using assms by (simp add: add_match_result_def)

theorem invalid_score_no_mutation_witness:
  "add_match_result (Elo [] 1500 32) ''e'' ''f'' (- 1) =
     (None, Elo [] 1500 32, [InvalidResult ''e'' ''f'' (- 1)]) \<and>
   players (Elo [] 1500 32) = [] \<and> matches (Elo [] 1500 32) = []"
  using invalid_score_no_mutation [of "- 1" "Elo [] 1500 32" "''e''" "''f''"]
  by (simp add: Elo_def)

text \<open>
  C4. In every reachable store both players of every record of the match history are
  keys of the player dictionary. \<^verbatim>\<open>add_match_result\<close> registers the two players before
  it appends the record, and every step keeps all keys of the dictionary and only
  extends the history at its end, so the players of a record are keys from the moment the
  record is appended.
\<close>

theorem history_players_registered:
  assumes "reachable s"
  shows "history_registered s \<and>
         (\<forall>s'. step s s' \<longrightarrow>
            (\<forall>q. has_player s q \<longrightarrow> has_player s' q) \<and>
            (\<exists>new. matches s' = matches s @ new))"
proof -
  have "history_registered s"
    using assms
  proof induction
    case (init names initial k)
    show ?case by (simp add: history_registered_def Elo_def)
  next
    case (next_step s s')
    then show ?case using step_keeps by blast
  qed
  then show ?thesis using step_keeps by blast
qed

theorem history_players_registered_witness:
  "reachable (fst (snd (add_match_result (Elo [] 1500 32) ''a'' ''b'' (1 / 2)))) \<and>
   matches (fst (snd (add_match_result (Elo [] 1500 32) ''a'' ''b'' (1 / 2)))) =
     [(''a'', ''b'', 1 / 2)] \<and>
   has_player (fst (snd (add_match_result (Elo [] 1500 32) ''a'' ''b'' (1 / 2)))) ''a'' \<and>
   has_player (fst (snd (add_match_result (Elo [] 1500 32) ''a'' ''b'' (1 / 2)))) ''b'' \<and>
   step (fst (snd (add_match_result (Elo [] 1500 32) ''a'' ''b'' (1 / 2))))
     (fst (add_player (fst (snd (add_match_result (Elo [] 1500 32) ''a'' ''b'' (1 / 2)))) ''c'')) \<and>
   has_player
     (fst (add_player (fst (snd (add_match_result (Elo [] 1500 32) ''a'' ''b'' (1 / 2)))) ''c''))
     ''a''"
proof -
  define S where "S = fst (snd (add_match_result (Elo [] 1500 32) ''a'' ''b'' (1 / 2)))"
  have val: "S = \<lparr>players = [(''a'', 1500), (''b'', 1500)], initial_rating = 1500,
                  k_factor = 32, matches = [(''a'', ''b'', 1 / 2)]\<rparr>"
    by (simp add: S_def Elo_def add_match_result_def has_player_def add_player_def
        update_rating_def expected_score_def)
  have r: "reachable S"
    unfolding S_def by (rule reachable.next_step [OF reachable.init step.by_add_match_result])
  have st: "step S (fst (add_player S ''c''))" by (rule step.by_add_player)
  have "history_registered S" and "has_player S ''a'' \<longrightarrow> has_player (fst (add_player S ''c'')) ''a''"
    using history_players_registered [OF r] st by blast+
  then show ?thesis
    using r st unfolding S_def [symmetric]
    by (simp add: val history_registered_def has_player_def)
qed

text \<open>
  C5. In a call of \<^verbatim>\<open>add_match_result\<close> with a score that passes the membership test,
  every dictionary lookup succeeds: on the store \<open>s3\<close> that the two registration steps
  and the append leave, \<^verbatim>\<open>_expected_score\<close> and \<^verbatim>\<open>_update_rating\<close> return for the first
  player, on the store \<open>s4\<close> written by that update they return for the second player,
  and the call ends without an exception. The \<^verbatim>\<open>KeyError\<close> branches of the model are
  not taken.
\<close>

theorem recorded_match_lookups_succeed:
  assumes "score1 = 1 \<or> score1 = 1 / 2 \<or> score1 = 0"
  shows "\<exists>s3 e1 s4 e2 s5.
           s3 = (registered (registered s player1) player2)
                  \<lparr>matches := matches s @ [(player1, player2, score1)]\<rparr> \<and>
           expected_score s3 player1 player2 = Inr e1 \<and>
           update_rating s3 player1 player2 score1 = Inr s4 \<and>
           expected_score s4 player2 player1 = Inr e2 \<and>
           update_rating s4 player2 player1 (1 - score1) = Inr s5 \<and>
           add_match_result s player1 player2 score1 = (None, s5, [])"
proof -
  define s3 where "s3 = (registered (registered s player1) player2)
                \<lparr>matches := matches s @ [(player1, player2, score1)]\<rparr>"
  have h3: "has_player s3 player1" "has_player s3 player2"
    using has_player_registered [of "registered s player1" player2]
      has_player_registered [of s player1]
    by (simp_all add: s3_def has_player_def)
  obtain s4 where s4: "update_rating s3 player1 player2 score1 = Inr s4"
    and k4: "\<forall>q. has_player s4 q = has_player s3 q"
    using update_rating_total [OF h3] by blast
  have h4: "has_player s4 player2" "has_player s4 player1" using k4 h3 by simp_all
  obtain s5 where s5: "update_rating s4 player2 player1 (1 - score1) = Inr s5"
    using update_rating_total [OF h4] by blast
  obtain e1 where e1: "expected_score s3 player1 player2 = Inr e1"
    using s4 by (auto simp: update_rating_def split: sum.splits)
  obtain e2 where e2: "expected_score s4 player2 player1 = Inr e2"
    using s5 by (auto simp: update_rating_def split: sum.splits)
  have "add_match_result s player1 player2 score1 = (None, s5, [])"
    using assms s4 s5 by (simp add: add_match_result_valid s3_def [symmetric])
  then show ?thesis using s3_def e1 s4 e2 s5 by blast
qed

theorem recorded_match_lookups_succeed_witness:
  "((1 / 2 :: real) = 1 \<or> (1 / 2 :: real) = 1 / 2 \<or> (1 / 2 :: real) = 0) \<and>
   add_match_result (Elo [''c''] 1500 32) ''c'' ''d'' (1 / 2) =
     (None,
      \<lparr>players = [(''c'', 1500), (''d'', 1500)], initial_rating = 1500, k_factor = 32,
       matches = [(''c'', ''d'', 1 / 2)]\<rparr>,
      [])"
proof -
  have v: "(1 / 2 :: real) = 1 \<or> (1 / 2 :: real) = 1 / 2 \<or> (1 / 2 :: real) = 0" by simp
  show ?thesis
    using recorded_match_lookups_succeed [OF v, of "Elo [''c''] 1500 32" "''c''" "''d''"]
    by (simp add: Elo_def add_match_result_def has_player_def add_player_def
        update_rating_def expected_score_def)
qed

text \<open>
  C6. \<^verbatim>\<open>add_player\<close> on a name that is present returns the store unchanged and prints
  the warning that the player exists; on a name that is absent it appends exactly one
  entry, the name with the initial rating, and prints nothing. Calling it a second time
  on the same name therefore changes nothing and prints the warning.
\<close>

theorem add_player_idempotent:
  "(has_player s name \<longrightarrow> add_player s name = (s, [PlayerExists name])) \<and>
   (\<not> has_player s name \<longrightarrow>
      add_player s name = (s\<lparr>players := players s @ [(name, initial_rating s)]\<rparr>, [])) \<and>
   add_player (fst (add_player s name)) name = (fst (add_player s name), [PlayerExists name])"
  using add_player_present add_player_absent has_player_add_player
  by metis

theorem add_player_idempotent_witness:
  "has_player (Elo [''a''] 1500 32) ''a'' \<and>
   add_player (Elo [''a''] 1500 32) ''a'' = (Elo [''a''] 1500 32, [PlayerExists ''a'']) \<and>
   \<not> has_player (Elo [] 1500 32) ''a'' \<and>
   add_player (Elo [] 1500 32) ''a'' =
     (\<lparr>players = [(''a'', 1500)], initial_rating = 1500, k_factor = 32, matches = []\<rparr>, [])"
  using add_player_idempotent [of "Elo [''a''] 1500 32" "''a''"]
    add_player_idempotent [of "Elo [] 1500 32" "''a''"]
  by (simp add: Elo_def has_player_def)

text \<open>
  C8. \<^verbatim>\<open>print_rating\<close> leaves the store as it is and prints, between the banner lines,
  the items of the player dictionary sorted by rating: the printed list has exactly the
  entries of the dictionary, every entry's rating is at least the rating of each entry
  after it, and entries of equal rating keep the order they have in the dictionary.
\<close>

theorem print_rating_sorted_descending:
  "fst (print_rating s) = s \<and>
   snd (print_rating s) = [Banner, ResultsHeader, Results (players_ratings s), Banner] \<and>
   mset (players_ratings s) = mset (players s) \<and>
   sorted_wrt (\<lambda>x y. snd y \<le> snd x) (players_ratings s) \<and>
   (\<forall>r. filter (\<lambda>x. snd x = r) (players_ratings s) = filter (\<lambda>x. snd x = r) (players s))"
proof -
  have "sorted (map (\<lambda>x. - snd x) (players_ratings s))"
    by (simp add: players_ratings_def)
  then have desc: "sorted_wrt (\<lambda>x y. snd y \<le> snd x) (players_ratings s)"
    by (simp add: sorted_map)
  have stable: "filter (\<lambda>x. snd x = r) (players_ratings s) = filter (\<lambda>x. snd x = r) (players s)"
    for r
    using sort_key_stable [of "\<lambda>x. - snd x" "- r" "players s"]
    by (simp add: players_ratings_def)
  show ?thesis
    using desc stable by (simp add: print_rating_def players_ratings_def)
qed




end
